theory Spec2Isabelle
  imports Complex_Main "HOL-Library.Log_Nat"
begin

section \<open>JavaScript numbers\<close>

text \<open>
  The component keeps its countdown in values of the TypeScript type \<open>number\<close>. A number
  is modelled as \<open>NaN\<close>, one of the two infinities, or an exact rational. In the state
  of the component rounding to 64-bit binary floating point is not modelled: on whole
  numbers of seconds below \<open>2 ^ 53\<close>, and on binary fractions such as \<open>0.5\<close>, the
  arithmetic below is exactly the program's. The display, where rounding shows, has its
  own model of it further down. Negative zero is identified with zero; the program
  cannot tell them apart.
\<close>

datatype number = NaN | NegInfinity | Finite rat | PosInfinity

text \<open>The relational operator \<open>a < b\<close>: false as soon as one side is \<open>NaN\<close>.\<close>

fun num_lt :: "number \<Rightarrow> number \<Rightarrow> bool" where
  "num_lt NaN b = False"
| "num_lt a NaN = False"
| "num_lt (Finite a) (Finite b) = (a < b)"
| "num_lt a NegInfinity = False"
| "num_lt NegInfinity b = True"
| "num_lt PosInfinity b = False"
| "num_lt a PosInfinity = True"

text \<open>\<open>a > b\<close> is \<open>b < a\<close>; \<open>a <= b\<close> is "neither is \<open>NaN\<close> and not \<open>b < a\<close>".\<close>

definition num_gt :: "number \<Rightarrow> number \<Rightarrow> bool" where
  "num_gt a b = num_lt b a"

definition num_le :: "number \<Rightarrow> number \<Rightarrow> bool" where
  "num_le a b = (a \<noteq> NaN \<and> b \<noteq> NaN \<and> \<not> num_lt b a)"

text \<open>The binary \<open>-\<close> operator.\<close>

fun num_sub :: "number \<Rightarrow> number \<Rightarrow> number" where
  "num_sub NaN b = NaN"
| "num_sub a NaN = NaN"
| "num_sub (Finite a) (Finite b) = Finite (a - b)"
| "num_sub PosInfinity PosInfinity = NaN"
| "num_sub NegInfinity NegInfinity = NaN"
| "num_sub PosInfinity b = PosInfinity"
| "num_sub NegInfinity b = NegInfinity"
| "num_sub a PosInfinity = NegInfinity"
| "num_sub a NegInfinity = PosInfinity"

text \<open>Unary minus, used for a sign in front of a numeric string.\<close>

fun num_neg :: "number \<Rightarrow> number" where
  "num_neg NaN = NaN"
| "num_neg (Finite a) = Finite (- a)"
| "num_neg PosInfinity = NegInfinity"
| "num_neg NegInfinity = PosInfinity"

definition isNaN :: "number \<Rightarrow> bool" where
  "isNaN v = (v = NaN)"

subsection \<open>\<open>Number(string)\<close>\<close>

text \<open>
  \<open>Number\<close> applied to a string follows the grammar \<open>StringNumericLiteral\<close> of the
  language: surrounding white space is dropped, the empty string is \<open>0\<close>, a decimal
  literal may carry a sign, a fraction and an exponent, \<open>0x\<close>, \<open>0o\<close> and \<open>0b\<close>
  introduce unsigned integers in base 16, 8 and 2, and everything else is \<open>NaN\<close>.
  A \<open>char\<close> stands for one code unit below 256.
\<close>

definition StrWhiteSpaceChar :: "char \<Rightarrow> bool" where
  "StrWhiteSpaceChar c = ((of_char c :: nat) \<in> {9, 10, 11, 12, 13, 32, 160})"

definition trim :: "string \<Rightarrow> string" where
  "trim s = rev (dropWhile StrWhiteSpaceChar (rev (dropWhile StrWhiteSpaceChar s)))"

definition digitValue :: "char \<Rightarrow> nat option" where
  "digitValue c =
     (let n = (of_char c :: nat) in
      if 48 \<le> n \<and> n \<le> 57 then Some (n - 48)
      else if 97 \<le> n \<and> n \<le> 102 then Some (n - 87)
      else if 65 \<le> n \<and> n \<le> 70 then Some (n - 55)
      else None)"

definition isDigit :: "nat \<Rightarrow> char \<Rightarrow> bool" where
  "isDigit base c = (case digitValue c of None \<Rightarrow> False | Some d \<Rightarrow> d < base)"

definition digitsValue :: "nat \<Rightarrow> string \<Rightarrow> nat" where
  "digitsValue base ds = foldl (\<lambda>a c. a * base + (case digitValue c of None \<Rightarrow> 0 | Some d \<Rightarrow> d)) 0 ds"

definition Digits :: "nat \<Rightarrow> string \<Rightarrow> nat option" where
  "Digits base ds =
     (if ds \<noteq> [] \<and> list_all (isDigit base) ds then Some (digitsValue base ds) else None)"

fun SignedInteger :: "string \<Rightarrow> int option" where
  "SignedInteger [] = None"
| "SignedInteger (c # cs) =
     (if c = CHR ''+'' then map_option int (Digits 10 cs)
      else if c = CHR ''-'' then map_option (\<lambda>n. - int n) (Digits 10 cs)
      else map_option int (Digits 10 (c # cs)))"

fun ExponentPart_opt :: "string \<Rightarrow> int option" where
  "ExponentPart_opt [] = Some 0"
| "ExponentPart_opt (c # cs) =
     (if c = CHR ''e'' \<or> c = CHR ''E'' then SignedInteger cs else None)"

definition scale10 :: "rat \<Rightarrow> int \<Rightarrow> rat" where
  "scale10 m e = (if 0 \<le> e then m * 10 ^ nat e else m / 10 ^ nat (- e))"

definition StrUnsignedDecimalLiteral :: "string \<Rightarrow> number" where
  "StrUnsignedDecimalLiteral s =
     (if s = ''Infinity'' then PosInfinity
      else
        let ip = takeWhile (isDigit 10) s;
            r1 = dropWhile (isDigit 10) s;
            fp = (case r1 of [] \<Rightarrow> [] | c # r \<Rightarrow>
                    if c = CHR ''.'' then takeWhile (isDigit 10) r else []);
            r2 = (case r1 of [] \<Rightarrow> [] | c # r \<Rightarrow>
                    if c = CHR ''.'' then dropWhile (isDigit 10) r else r1)
        in if ip = [] \<and> fp = [] then NaN
           else case ExponentPart_opt r2 of
                  None \<Rightarrow> NaN
                | Some e \<Rightarrow>
                    Finite (scale10 (of_nat (digitsValue 10 (ip @ fp)) / 10 ^ length fp) e))"

definition StrDecimalLiteral :: "string \<Rightarrow> number" where
  "StrDecimalLiteral s =
     (case s of
        [] \<Rightarrow> NaN
      | c # cs \<Rightarrow>
          if c = CHR ''+'' then StrUnsignedDecimalLiteral cs
          else if c = CHR ''-'' then num_neg (StrUnsignedDecimalLiteral cs)
          else StrUnsignedDecimalLiteral s)"

definition NonDecimalIntegerLiteral :: "string \<Rightarrow> number option" where
  "NonDecimalIntegerLiteral s =
     (case s of
        z # p # ds \<Rightarrow>
          if z \<noteq> CHR ''0'' then None
          else
            let base = (if p = CHR ''x'' \<or> p = CHR ''X'' then 16
                        else if p = CHR ''o'' \<or> p = CHR ''O'' then 8
                        else if p = CHR ''b'' \<or> p = CHR ''B'' then 2
                        else (0::nat))
            in if base = 0 then None
               else (case Digits base ds of
                       None \<Rightarrow> Some NaN
                     | Some n \<Rightarrow> Some (Finite (of_nat n)))
      | _ \<Rightarrow> None)"

definition Number_str :: "string \<Rightarrow> number" where
  "Number_str s =
     (let t = trim s in
      if t = [] then Finite 0
      else case NonDecimalIntegerLiteral t of
             Some v \<Rightarrow> v
           | None \<Rightarrow> StrDecimalLiteral t)"

section \<open>The component's state\<close>

text \<open>
  \<open>duration\<close> has the type \<open>number | string\<close>; the other three state variables and
  the ref follow the declarations of the component. Interval handles are the positive
  integers the runtime hands out; \<open>intervals\<close> is the set of intervals that are live
  (set and not yet cleared), \<open>nextId\<close> the next handle \<open>setInterval\<close> returns, and
  \<open>deps\<close> the dependency array \<open>[isActive, isPaused]\<close> of the last run of the effect.
\<close>

datatype number_or_string = Num number | Str string

record countdown =
  duration :: number_or_string
  timeLeft :: number
  isActive :: bool
  isPaused :: bool
  timerRef :: "nat option"
  intervals :: "nat set"
  nextId :: nat
  deps :: "bool \<times> bool"

text \<open>The state after mounting: the effect has run once and, inactive, set no interval.\<close>

definition initial :: countdown where
  "initial = \<lparr>duration = Str [], timeLeft = Finite 0, isActive = False, isPaused = False,
     timerRef = None, intervals = {}, nextId = 1, deps = (False, False)\<rparr>"

subsection \<open>The timer primitives\<close>

definition setInterval :: "countdown \<Rightarrow> nat \<times> countdown" where
  "setInterval s = (nextId s, s\<lparr>intervals := insert (nextId s) (intervals s), nextId := Suc (nextId s)\<rparr>)"

definition clearInterval :: "nat option \<Rightarrow> countdown \<Rightarrow> countdown" where
  "clearInterval r s = (case r of None \<Rightarrow> s | Some h \<Rightarrow> s\<lparr>intervals := intervals s - {h}\<rparr>)"

text \<open>\<open>if (timerRef.current)\<close>: \<open>null\<close> and the number \<open>0\<close> are falsy.\<close>

definition truthy :: "nat option \<Rightarrow> bool" where
  "truthy r = (case r of None \<Rightarrow> False | Some h \<Rightarrow> h \<noteq> 0)"

text \<open>
  The block \<open>if (timerRef.current) { clearInterval(timerRef.current); timerRef.current = null; }\<close>
  that three handlers and the effect's cleanup share.
\<close>

definition clear_timer :: "countdown \<Rightarrow> countdown" where
  "clear_timer s =
     (if truthy (timerRef s) then (clearInterval (timerRef s) s)\<lparr>timerRef := None\<rparr> else s)"

subsection \<open>The handlers\<close>

definition handleSetDuration :: "countdown \<Rightarrow> countdown" where
  "handleSetDuration s =
     (case duration s of
        Num d \<Rightarrow>
          if num_gt d (Finite 0)
          then clear_timer (s\<lparr>timeLeft := d, isActive := False, isPaused := False,
                               duration := Str []\<rparr>)
          else s
      | Str _ \<Rightarrow> s)"

definition handleStart :: "countdown \<Rightarrow> countdown" where
  "handleStart s =
     (if num_gt (timeLeft s) (Finite 0) then s\<lparr>isActive := True, isPaused := False\<rparr> else s)"

definition handlePause :: "countdown \<Rightarrow> countdown" where
  "handlePause s =
     (if isActive s then clear_timer (s\<lparr>isPaused := True, isActive := False\<rparr>) else s)"

definition handleReset :: "countdown \<Rightarrow> countdown" where
  "handleReset s =
     clear_timer (s\<lparr>isActive := False, isPaused := False,
                    timeLeft := (case duration s of Num d \<Rightarrow> d | Str _ \<Rightarrow> Finite 0)\<rparr>)"

definition handleDurationChange :: "string \<Rightarrow> countdown \<Rightarrow> countdown" where
  "handleDurationChange target_value s =
     (let v = Number_str target_value in
      if \<not> isNaN v then s\<lparr>duration := Num v\<rparr> else s\<lparr>duration := Str []\<rparr>)"

subsection \<open>The effect and the interval's callback\<close>

text \<open>
  The callback of the interval: the updater passed to \<open>setTimeLeft\<close> receives the
  current \<open>timeLeft\<close>, clears the interval held in the ref when it is at most \<open>1\<close>
  (\<open>clearInterval(null)\<close> does nothing), and returns it minus \<open>1\<close>.
\<close>

definition tick :: "countdown \<Rightarrow> countdown" where
  "tick s =
     (let prevTime = timeLeft s;
          s1 = (if num_le prevTime (Finite 1)
                then (clearInterval (timerRef s) s)\<lparr>timerRef := None\<rparr> else s)
      in s1\<lparr>timeLeft := num_sub prevTime (Finite 1)\<rparr>)"

definition cleanup :: "countdown \<Rightarrow> countdown" where
  "cleanup s = clear_timer s"

definition effect :: "countdown \<Rightarrow> countdown" where
  "effect s =
     (if isActive s \<and> \<not> isPaused s
      then (case setInterval s of (h, s1) \<Rightarrow> s1\<lparr>timerRef := Some h\<rparr>)
      else s)"

text \<open>
  After a handler the component renders again. When \<open>isActive\<close> or \<open>isPaused\<close>
  differs from the dependencies of the last run, the cleanup of that run is called and
  the effect runs anew; otherwise neither happens.
\<close>

definition rerun_needed :: "countdown \<Rightarrow> bool" where
  "rerun_needed s = (deps s \<noteq> (isActive s, isPaused s))"

definition commit :: "countdown \<Rightarrow> countdown" where
  "commit s =
     (if rerun_needed s then effect ((cleanup s)\<lparr>deps := (isActive s, isPaused s)\<rparr>) else s)"

subsection \<open>Events and runs\<close>

text \<open>
  What can happen to a mounted component: the input field changes to a string, one of
  the four buttons is clicked, or the interval with handle \<open>h\<close> fires. A cleared
  interval never fires, so \<open>Tick h\<close> leaves the state alone unless \<open>h\<close> is live.
\<close>

datatype event = DurationChange string | SetDuration | Start | Pause | Reset | Tick nat

fun handler :: "event \<Rightarrow> countdown \<Rightarrow> countdown" where
  "handler (DurationChange v) s = handleDurationChange v s"
| "handler SetDuration s = handleSetDuration s"
| "handler Start s = handleStart s"
| "handler Pause s = handlePause s"
| "handler Reset s = handleReset s"
| "handler (Tick h) s = (if h \<in> intervals s then tick s else s)"

definition step :: "event \<Rightarrow> countdown \<Rightarrow> countdown" where
  "step e s = commit (handler e s)"

fun run :: "event list \<Rightarrow> countdown \<Rightarrow> countdown" where
  "run [] s = s"
| "run (e # es) s = run es (step e s)"

text \<open>
  The states the component passes through while it handles one event: after the handler,
  and, when the effect runs again, after the cleanup and after the effect.
\<close>

definition points :: "event \<Rightarrow> countdown \<Rightarrow> countdown list" where
  "points e s =
     (let s1 = handler e s in
      if rerun_needed s1
      then [s1, cleanup s1, effect ((cleanup s1)\<lparr>deps := (isActive s1, isPaused s1)\<rparr>)]
      else [s1])"

section \<open>Formatting the display\<close>

subsection \<open>Rounding to binary64\<close>

text \<open>
  \<open>formatTime\<close> divides by 60 before it takes the floor, and the quotient of two
  numbers is the binary64 value nearest to the exact quotient, ties to the even
  significand. \<open>round64\<close> is that rounding on rationals: 53 significant bits from
  the leading bit at \<open>2 ^ floorlog2 x\<close>, and the fixed spacing \<open>2 ^ - 1074\<close> below
  \<open>2 ^ - 1022\<close>. Overflow to \<open>Infinity\<close> at \<open>2 ^ 1024\<close> is left out: no number
  that \<open>formatTime\<close> divides or prints reaches it.
\<close>

definition floorlog2 :: "rat \<Rightarrow> int" where
  "floorlog2 x =
     (case quotient_of x of (a, b) \<Rightarrow>
        let g = bitlen a - bitlen b in if 2 powi g \<le> x then g else g - 1)"

definition round_half_even :: "rat \<Rightarrow> int" where
  "round_half_even y =
     (let f = \<lfloor>y\<rfloor>; d = y - of_int f
      in if d < 1 / 2 then f else if 1 / 2 < d then f + 1 else if even f then f else f + 1)"

definition round64 :: "rat \<Rightarrow> rat" where
  "round64 x =
     (if x = 0 then 0
      else let e = max (floorlog2 \<bar>x\<bar>) (- 1022); ulp = 2 powi (e - 52)
           in sgn x * of_int (round_half_even (\<bar>x\<bar> / ulp)) * ulp)"

subsection \<open>\<open>String(number)\<close> on whole numbers\<close>

text \<open>
  \<open>decimal\<close> is the decimal numeral of a non-negative integer. \<open>String\<close> prints the
  shortest digit string that reads back as the same binary64 value, the nearest one when
  several of that length do: \<open>candidates x k\<close> are the multiples of a power of ten with
  \<open>k\<close> significant digits next to \<open>x\<close> that round to \<open>x\<close>, nearest first. Below
  \<open>2 ^ 53\<close> every integer is a binary64 value of its own, so the digit string is the
  numeral itself. From 22 digits on the exponent form is printed.
\<close>

definition digit_char :: "nat \<Rightarrow> char" where
  "digit_char d = char_of (48 + d)"

function decimal :: "int \<Rightarrow> string" where
  "decimal n =
     (if n < 10 then [digit_char (nat n)]
      else decimal (n div 10) @ [digit_char (nat (n mod 10))])"
  by pat_completeness auto
termination
  by (relation "measure nat") auto

definition candidates :: "int \<Rightarrow> nat \<Rightarrow> int list" where
  "candidates x k =
     (let p = 10 ^ (length (decimal x) - k);
          lo = (x div p) * p;
          hi = lo + p;
          lo_first = (x - lo < hi - x \<or> (x - lo = hi - x \<and> even (x div p)))
      in filter (\<lambda>v. round64 (of_int v) = of_int x) (if lo_first then [lo, hi] else [hi, lo]))"

fun first_candidate :: "int \<Rightarrow> nat list \<Rightarrow> int" where
  "first_candidate x [] = x"
| "first_candidate x (k # ks) =
     (case candidates x k of [] \<Rightarrow> first_candidate x ks | v # _ \<Rightarrow> v)"

definition shortest :: "int \<Rightarrow> int" where
  "shortest x = first_candidate x [1 ..< Suc (length (decimal x))]"

definition strip_zeros :: "string \<Rightarrow> string" where
  "strip_zeros ds = rev (dropWhile (\<lambda>c. c = CHR ''0'') (rev ds))"

definition render :: "int \<Rightarrow> string" where
  "render v =
     (let ds = decimal v; n = length ds
      in if n \<le> 21 then ds
         else let s = strip_zeros ds
              in (if length s = 1 then s else hd s # CHR ''.'' # tl s)
                 @ ''e+'' @ decimal (int n - 1))"

definition String_nonneg :: "int \<Rightarrow> string" where
  "String_nonneg x = (if x < 2 ^ 53 then decimal x else render (shortest x))"

definition String_int :: "int \<Rightarrow> string" where
  "String_int i = (if i < 0 then CHR ''-'' # String_nonneg (- i) else String_nonneg i)"

subsection \<open>\<open>formatTime\<close>\<close>

text \<open>
  The argument of \<open>formatTime\<close> is the value of a number that is an integer.
  \<open>Math.floor(time / 60)\<close> is the floor of the rounded quotient, \<open>%\<close> is exact and
  takes the sign of the dividend.
\<close>

definition padStart :: "nat \<Rightarrow> string \<Rightarrow> string \<Rightarrow> string" where
  "padStart targetLength padString s =
     (if targetLength \<le> length s \<or> padString = [] then s
      else take (targetLength - length s)
             (concat (replicate (targetLength - length s) padString)) @ s)"

definition remainder :: "int \<Rightarrow> int \<Rightarrow> int" where
  "remainder a b = sgn a * (\<bar>a\<bar> mod \<bar>b\<bar>)"

definition formatTime :: "int \<Rightarrow> string" where
  "formatTime time =
     (let minutes = \<lfloor>round64 (of_int time / 60)\<rfloor>;
          seconds = remainder time 60
      in padStart 2 ''0'' (String_int minutes) @ '':'' @ padStart 2 ''0'' (String_int seconds))"

section \<open>What the claims speak about\<close>

text \<open>
  The run states of the specification: Running is \<open>isActive\<close> and not \<open>isPaused\<close>,
  Idle is neither.
\<close>

definition Running :: "countdown \<Rightarrow> bool" where
  "Running s = (isActive s \<and> \<not> isPaused s)"

definition Idle :: "countdown \<Rightarrow> bool" where
  "Idle s = (\<not> isActive s \<and> \<not> isPaused s)"

text \<open>"Decremented by 1, floored at 0", in the words of the specification.\<close>

definition decrement_floored :: "number \<Rightarrow> number" where
  "decrement_floored t =
     (if num_lt (num_sub t (Finite 1)) (Finite 0) then Finite 0 else num_sub t (Finite 1))"

text \<open>"A finite number greater than 0", in the words of the specification.\<close>

fun finite_positive :: "number_or_string \<Rightarrow> bool" where
  "finite_positive (Num (Finite q)) = (0 < q)"
| "finite_positive _ = False"

text \<open>
  Modelled from the spec: the component \<open>Input\<close> that renders the duration field is
  not among the sources. The component renders it with \<open>type="number"\<close>, the "text
  input for duration (numeric)" of the specification. What such a field hands to
  \<open>onChange\<close> is the empty string or a valid floating-point number of finite binary64
  value, written with digits, a sign, a point and an exponent mark only. \<open>deliverable\<close>
  admits every such string.
\<close>

definition number_field_char :: "char \<Rightarrow> bool" where
  "number_field_char c = (isDigit 10 c \<or> c \<in> set ''+-.eE'')"

definition deliverable :: "string \<Rightarrow> bool" where
  "deliverable v =
     (list_all number_field_char v \<and>
      (case Number_str v of Finite q \<Rightarrow> \<bar>q\<bar> < 2 ^ 1024 - 2 ^ 970 | _ \<Rightarrow> True))"

fun deliverable_event :: "event \<Rightarrow> bool" where
  "deliverable_event (DurationChange v) = deliverable v"
| "deliverable_event e = True"

text \<open>The pending input holds the empty string or a finite number.\<close>

fun finite_or_empty :: "number_or_string \<Rightarrow> bool" where
  "finite_or_empty (Num (Finite q)) = True"
| "finite_or_empty (Num x) = False"
| "finite_or_empty (Str x) = (x = [])"

text \<open>
  The fields of the display: what stands before the first colon and what stands after it.
\<close>

definition minutes_field :: "string \<Rightarrow> string" where
  "minutes_field s = takeWhile (\<lambda>c. c \<noteq> CHR '':'') s"

definition seconds_field :: "string \<Rightarrow> string" where
  "seconds_field s = tl (dropWhile (\<lambda>c. c \<noteq> CHR '':'') s)"

text \<open>
  The invariant of the component between two events: the dependencies are those of the
  last render; with no handle in the ref no interval is live and the component is not
  running with time left; with a handle \<open>h\<close> in the ref exactly the interval \<open>h\<close> is
  live, and the component is running with time left.
\<close>

definition consistent :: "countdown \<Rightarrow> bool" where
  "consistent s =
     (deps s = (isActive s, isPaused s) \<and> 0 < nextId s \<and>
      (case timerRef s of
         None \<Rightarrow> intervals s = {} \<and> \<not> (isActive s \<and> isPaused s) \<and>
                 \<not> (isActive s \<and> num_gt (timeLeft s) (Finite 0))
       | Some h \<Rightarrow> intervals s = {h} \<and> 0 < h \<and> h < nextId s \<and>
                   isActive s \<and> \<not> isPaused s \<and> num_gt (timeLeft s) (Finite 0)))"

section \<open>Facts about numbers\<close>

lemma num_sub_one_pos:
  "num_gt t (Finite 0) \<Longrightarrow> num_gt (num_sub t (Finite 1)) (Finite 0) = (\<not> num_le t (Finite 1))"
  by (cases t) (auto simp: num_gt_def num_le_def)

section \<open>The invariant holds in every reachable state\<close>

lemma clear_timer_eq:
  "clear_timer s = (case timerRef s of None \<Rightarrow> s | Some h \<Rightarrow>
      if h = 0 then s else s\<lparr>intervals := intervals s - {h}, timerRef := None\<rparr>)"
  by (simp add: clear_timer_def truthy_def clearInterval_def split: option.splits)

lemmas commit_defs = commit_def rerun_needed_def cleanup_def effect_def setInterval_def
  clear_timer_eq

lemma consistent_initial: "consistent initial"
  by (simp add: consistent_def initial_def num_gt_def)

lemma consistent_DurationChange: "consistent s \<Longrightarrow> consistent (step (DurationChange v) s)"
  by (cases "timerRef s")
     (simp_all add: step_def consistent_def handleDurationChange_def Let_def commit_def
        rerun_needed_def)

lemma consistent_SetDuration: "consistent s \<Longrightarrow> consistent (step SetDuration s)"
  by (cases "timerRef s"; cases "duration s")
     (simp_all add: step_def consistent_def handleSetDuration_def commit_defs)

lemma consistent_Start: "consistent s \<Longrightarrow> consistent (step Start s)"
  by (cases "timerRef s") (auto simp add: step_def consistent_def handleStart_def commit_defs)

lemma consistent_Pause: "consistent s \<Longrightarrow> consistent (step Pause s)"
  by (cases "timerRef s") (simp_all add: step_def consistent_def handlePause_def commit_defs)

lemma consistent_Reset: "consistent s \<Longrightarrow> consistent (step Reset s)"
  by (cases "timerRef s") (simp_all add: step_def consistent_def handleReset_def commit_defs)

lemma consistent_Tick: "consistent s \<Longrightarrow> consistent (step (Tick h) s)"
  by (cases "timerRef s")
     (simp_all add: step_def consistent_def tick_def clearInterval_def Let_def commit_defs
        num_sub_one_pos)

lemma consistent_step: "consistent s \<Longrightarrow> consistent (step e s)"
  by (cases e)
     (simp_all add: consistent_DurationChange consistent_SetDuration consistent_Start
        consistent_Pause consistent_Reset consistent_Tick)

lemma run_snoc: "run (es @ [e]) s = step e (run es s)"
  by (induction es arbitrary: s) simp_all

lemma consistent_run: "consistent (run es initial)"
  by (induction es rule: rev_induct) (simp_all add: consistent_initial run_snoc consistent_step)

lemma consistent_no_rerun: "consistent s \<Longrightarrow> \<not> rerun_needed s"
  by (simp add: consistent_def rerun_needed_def)

lemma commit_consistent: "consistent s \<Longrightarrow> commit s = s"
  by (simp add: commit_def consistent_no_rerun)

lemma commit_duration: "duration (commit s) = duration s"
  by (cases "timerRef s") (simp_all add: commit_defs)

lemma commit_timeLeft: "timeLeft (commit s) = timeLeft s"
  by (cases "timerRef s") (simp_all add: commit_defs)

lemma commit_flags: "isActive (commit s) = isActive s \<and> isPaused (commit s) = isPaused s"
  by (cases "timerRef s") (simp_all add: commit_defs)

lemma commit_settled: "\<not> rerun_needed (commit s)"
  by (cases "timerRef s") (simp_all add: commit_defs)

lemma commit_idempotent: "commit (commit s) = commit s"
  using commit_settled [of s] by (simp add: commit_def [of "commit s"])

section \<open>Intervals while one event is handled\<close>

lemma handler_intervals_finite:
  "consistent s \<Longrightarrow> finite (intervals (handler e s)) \<and> card (intervals (handler e s)) \<le> 1"
  by (cases e; cases "timerRef s"; cases "duration s")
     (simp_all add: consistent_def handleDurationChange_def handleSetDuration_def handleStart_def
        handlePause_def handleReset_def tick_def clearInterval_def Let_def clear_timer_eq)

lemma handler_ref_holds_intervals:
  "consistent s \<Longrightarrow>
     (case timerRef (handler e s) of
        None \<Rightarrow> intervals (handler e s) = {}
      | Some h \<Rightarrow> intervals (handler e s) = {h} \<and> 0 < h)"
  by (cases e; cases "timerRef s"; cases "duration s")
     (simp_all add: consistent_def handleDurationChange_def handleSetDuration_def handleStart_def
        handlePause_def handleReset_def tick_def clearInterval_def Let_def clear_timer_eq)

lemma cleanup_releases:
  "consistent s \<Longrightarrow> intervals (cleanup (handler e s)) = {}"
  using handler_ref_holds_intervals [of s e]
  by (cases "timerRef (handler e s)") (simp_all add: cleanup_def clear_timer_eq)

lemma effect_card:
  "intervals s = {} \<Longrightarrow> finite (intervals (effect s)) \<and> card (intervals (effect s)) \<le> 1"
  by (simp add: effect_def setInterval_def)

lemma step_last_points: "step e s = last (points e s)"
  by (simp add: step_def points_def commit_def Let_def)

section \<open>Rounding the quotient\<close>

lemma floorlog2_le:
  assumes "0 < x"
  shows "2 powi (floorlog2 x) \<le> x"
proof -
  obtain a b where q: "quotient_of x = (a, b)" by (cases "quotient_of x")
  then have b: "0 < b" by (rule quotient_of_denom_pos)
  from q have x: "x = of_int a / of_int b" by (rule quotient_of_div)
  with assms b have a: "0 < a" by (simp add: zero_less_divide_iff)
  let ?g = "bitlen a - bitlen b"
  show ?thesis
  proof (cases "2 powi ?g \<le> x")
    case True
    then show ?thesis by (simp add: floorlog2_def q Let_def)
  next
    case False
    have la: "(2::int) ^ nat (bitlen a - 1) \<le> a" using bitlen_bounds [OF a] by simp
    have lb: "b < (2::int) ^ nat (bitlen b)" using bitlen_bounds [OF b] by simp
    have a1: "1 \<le> bitlen a" using a bitlen_alt_def [of a] by (simp add: bitlen_eq_zero_iff) 
    have "(of_int ((2::int) ^ nat (bitlen a - 1)) :: rat) \<le> of_int a" using la by (simp only: of_int_le_iff)
    then have A: "(2::rat) powi (bitlen a - 1) \<le> of_int a"
      using a1 by (simp add: power_int_nonneg_exp)
    have "(of_int b :: rat) < of_int ((2::int) ^ nat (bitlen b))" using lb by (simp only: of_int_less_iff)
    then have B: "(of_int b :: rat) < 2 powi (bitlen b)"
      using bitlen_nonneg [of b] by (simp add: power_int_nonneg_exp)
    have "(2::rat) powi (?g - 1) = 2 powi (bitlen a - 1) / 2 powi (bitlen b)"
      using power_int_diff [of "2::rat" "bitlen a - 1" "bitlen b"] by (simp add: algebra_simps)
    also have "\<dots> \<le> of_int a / 2 powi (bitlen b)"
      using A by (simp add: divide_right_mono)
    also have "\<dots> \<le> of_int a / of_int b"
      using B b a by (intro divide_left_mono) simp_all
    finally have "(2::rat) powi (?g - 1) \<le> x" using x by simp
    with False show ?thesis by (simp add: floorlog2_def q Let_def)
  qed
qed

lemma round_half_even_ge: "of_int Q \<le> y \<Longrightarrow> Q \<le> round_half_even y"
proof -
  assume "of_int Q \<le> y"
  then have "Q \<le> \<lfloor>y\<rfloor>" by (simp add: le_floor_iff)
  then show ?thesis by (simp add: round_half_even_def Let_def)
qed

lemma round_half_even_less: "y < of_int Q - 1 / 2 \<Longrightarrow> round_half_even y < Q"
proof -
  assume y: "y < of_int Q - 1 / 2"
  have f: "of_int \<lfloor>y\<rfloor> \<le> y" by simp
  show ?thesis
  proof (cases "y - of_int \<lfloor>y\<rfloor> < 1 / 2")
    case True
    have "(of_int \<lfloor>y\<rfloor> :: rat) < of_int Q" using f y by linarith
    then have "\<lfloor>y\<rfloor> < Q" by (simp only: of_int_less_iff)
    with True show ?thesis by (simp add: round_half_even_def Let_def)
  next
    case False
    then have "(of_int \<lfloor>y\<rfloor> :: rat) + 1 < of_int Q" using y by linarith
    then have "(of_int (\<lfloor>y\<rfloor> + 1) :: rat) < of_int Q" by simp
    then have "\<lfloor>y\<rfloor> + 1 < Q" by (simp only: of_int_less_iff)
    then show ?thesis by (simp add: round_half_even_def Let_def)
  qed
qed

text \<open>Dividing a whole number of seconds below \<open>2 ^ 53\<close> by 60 and rounding the
  quotient to binary64 does not move it across a whole number.\<close>

lemma floorlog2_small:
  assumes "0 < x" and "x < 2 ^ 48"
  shows "floorlog2 x \<le> 47"
proof -
  have "(2::rat) powi (floorlog2 x) \<le> x" using assms(1) by (rule floorlog2_le)
  also have "x < 2 powi 48" using assms(2) by simp
  finally have "(2::rat) powi (floorlog2 x) < 2 powi 48" .
  then have "floorlog2 x < 48" by (rule power_int_le_imp_less_exp [rotated]) simp_all
  then show ?thesis by simp
qed

lemma floor_round64_div60:
  assumes "0 \<le> t" and "t < 2 ^ 53"
  shows "\<lfloor>round64 (of_int t / 60)\<rfloor> = t div 60"
proof (cases "t = 0")
  case True
  then show ?thesis by (simp add: round64_def)
next
  case False
  with assms have tpos: "0 < t" by simp
  define x :: rat where "x = of_int t / 60"
  define q where "q = t div 60"
  define r where "r = t mod 60"
  have xpos: "0 < x" using tpos by (simp add: x_def)
  have r: "0 \<le> r" "r \<le> 59" by (simp_all add: r_def) 
  have t: "t = 60 * q + r" by (simp add: q_def r_def)
  have xq: "x = of_int q + of_int r / 60" by (simp add: x_def t)
  have "(of_int t :: rat) < of_int (2 ^ 53)" using assms(2) by (simp only: of_int_less_iff)
  then have "x < 2 ^ 48" by (simp add: x_def)
  with xpos have e47: "floorlog2 x \<le> 47" by (rule floorlog2_small)
  define E where "E = max (floorlog2 x) (- 1022)"
  define j where "j = nat (52 - E)"
  have E: "E \<le> 47" using e47 by (simp add: E_def)
  then have j5: "5 \<le> j" by (simp add: j_def)
  have "E - 52 = - int j" using E by (simp add: j_def)
  then have ulp: "(2::rat) powi (E - 52) = 1 / 2 ^ j"
    by (simp add: power_int_minus_divide)
  define P :: rat where "P = 2 ^ j"
  have "(2::rat) ^ 5 \<le> 2 ^ j" using j5 by (intro power_increasing) simp_all
  then have P32: "32 \<le> P" by (simp add: P_def)
  have Pint: "P = of_int (2 ^ j)" by (simp add: P_def)
  define R where "R = round_half_even (x * P)"
  have r64: "round64 x = of_int R / P"
    using xpos by (simp add: round64_def Let_def E_def [symmetric] ulp R_def P_def)
  have "of_int (q * 2 ^ j) \<le> x * P"
  proof -
    have "of_int q * P \<le> x * P" using r(1) P32 by (simp add: xq)
    then show ?thesis by (simp add: Pint)
  qed
  then have lo: "q * 2 ^ j \<le> R" unfolding R_def by (rule round_half_even_ge)
  have "x * P < of_int ((q + 1) * 2 ^ j) - 1 / 2"
  proof -
    have "(of_int r :: rat) \<le> 59" using r(2) by (simp only: of_int_le_iff of_int_numeral)
    then have "x \<le> of_int q + 59 / 60" by (simp add: xq)
    then have "x * P \<le> (of_int q + 59 / 60) * P" using P32 by (intro mult_right_mono) simp_all
    also have "\<dots> = (of_int q + 1) * P - P / 60" by (simp add: algebra_simps)
    also have "\<dots> < (of_int q + 1) * P - 1 / 2" using P32 by simp
    finally show ?thesis by (simp add: Pint)
  qed
  then have hi: "R < (q + 1) * 2 ^ j" unfolding R_def by (rule round_half_even_less)
  have Ppos: "0 < P" using P32 by simp
  have "(of_int (q * 2 ^ j) :: rat) \<le> of_int R" using lo by (simp only: of_int_le_iff)
  then have "of_int q * P \<le> of_int R" by (simp add: Pint)
  then have A: "of_int q \<le> of_int R / P" using Ppos by (simp add: pos_le_divide_eq)
  have "(of_int R :: rat) < of_int ((q + 1) * 2 ^ j)" using hi by (simp only: of_int_less_iff)
  then have "of_int R < (of_int q + 1) * P" by (simp add: Pint)
  then have B: "of_int R / P < of_int q + 1" using Ppos by (simp add: pos_divide_less_eq)
  have "\<lfloor>of_int R / P\<rfloor> = q" using A B by (rule floor_unique)
  then show ?thesis using r64 by (simp add: x_def q_def)
qed

section \<open>Decimal numerals and padding\<close>

declare decimal.simps [simp del]

lemma digitValue_digit_char: "d < 10 \<Longrightarrow> digitValue (digit_char d) = Some d"
  by (simp add: digitValue_def digit_char_def Let_def)

lemma isDigit_digit_char: "d < 10 \<Longrightarrow> isDigit 10 (digit_char d)"
  by (simp add: isDigit_def digitValue_digit_char)

lemma isDigit_not_colon: "isDigit 10 c \<Longrightarrow> c \<noteq> CHR '':''"
  by (auto simp add: isDigit_def digitValue_def)

lemma digitValue_zero: "digitValue CHR ''0'' = Some 0"
  by (simp add: digitValue_def)

lemma decimal_digits: "0 \<le> n \<Longrightarrow> list_all (isDigit 10) (decimal n)"
proof (induction n rule: decimal.induct)
  case (1 n)
  show ?case
  proof (cases "n < 10")
    case True
    with "1.prems" have "nat n < 10" by simp
    with True show ?thesis by (subst decimal.simps) (simp add: isDigit_digit_char)
  next
    case False
    then have "0 \<le> n div 10" by simp
    with False "1.IH" have "list_all (isDigit 10) (decimal (n div 10))" by simp
    moreover have "nat (n mod 10) < 10" by simp
    ultimately show ?thesis using False by (subst decimal.simps) (simp add: isDigit_digit_char)
  qed
qed

lemma digitsValue_snoc:
  "digitsValue b (ds @ [c]) = digitsValue b ds * b + (case digitValue c of None \<Rightarrow> 0 | Some d \<Rightarrow> d)"
  by (simp add: digitsValue_def)

lemma digitsValue_zero_Cons: "digitsValue b (CHR ''0'' # ds) = digitsValue b ds"
  by (simp add: digitsValue_def digitValue_zero)

lemma decimal_value: "0 \<le> n \<Longrightarrow> digitsValue 10 (decimal n) = nat n"
proof (induction n rule: decimal.induct)
  case (1 n)
  show ?case
  proof (cases "n < 10")
    case True
    with "1.prems" have "nat n < 10" by simp
    with True show ?thesis
      by (subst decimal.simps) (simp add: digitsValue_def digitValue_digit_char)
  next
    case False
    then have "0 \<le> n div 10" by simp
    with False "1.IH" have ih: "digitsValue 10 (decimal (n div 10)) = nat (n div 10)" by simp
    have m: "nat (n mod 10) < 10" by simp
    have "nat (n div 10) * 10 + nat (n mod 10) = nat n"
      using "1.prems" by (simp add: nat_div_distrib nat_mod_distrib)
    with False ih m show ?thesis
      by (subst decimal.simps) (simp add: digitsValue_snoc digitValue_digit_char)
  qed
qed

lemma decimal_length:
  "length (decimal n) = (if n < 10 then 1 else Suc (length (decimal (n div 10))))"
  by (subst decimal.simps) simp

lemma decimal_nonempty: "decimal n \<noteq> []"
  by (subst decimal.simps) simp

lemma decimal_hd: "0 < n \<Longrightarrow> hd (decimal n) \<noteq> CHR ''0''"
proof (induction n rule: decimal.induct)
  case (1 n)
  show ?case
  proof (cases "n < 10")
    case True
    have "digit_char (nat n) \<noteq> CHR ''0''"
    proof
      assume "digit_char (nat n) = CHR ''0''"
      then have "digitValue (digit_char (nat n)) = Some 0" by (simp add: digitValue_zero)
      moreover have "nat n < 10" using True by simp
      ultimately show False using "1.prems" by (simp add: digitValue_digit_char)
    qed
    with True show ?thesis by (subst decimal.simps) simp
  next
    case False
    then have "0 < n div 10" by simp
    with False "1.IH" have "hd (decimal (n div 10)) \<noteq> CHR ''0''" by simp
    with False show ?thesis
      by (subst decimal.simps) (simp add: decimal_nonempty)
  qed
qed

lemma decimal_length_two: "n < 100 \<Longrightarrow> length (decimal n) \<le> 2"
proof (cases "n < 10")
  case True
  then show ?thesis by (simp add: decimal_length [of n])
next
  case False
  assume "n < 100"
  then have "n div 10 < 10" by simp
  then have "length (decimal (n div 10)) = 1" by (simp add: decimal_length [of "n div 10"])
  with False show ?thesis by (simp add: decimal_length [of n])
qed

lemma padStart_decimal:
  "padStart 2 ''0'' (decimal n) =
     (if 2 \<le> length (decimal n) then decimal n else CHR ''0'' # decimal n)"
proof (cases "2 \<le> length (decimal n)")
  case True
  then show ?thesis by (simp add: padStart_def)
next
  case False
  moreover have "length (decimal n) \<noteq> 0" by (simp add: decimal_nonempty)
  ultimately have "length (decimal n) = 1" by arith
  then show ?thesis by (simp add: padStart_def)
qed

lemma padded_digits: "0 \<le> n \<Longrightarrow> list_all (isDigit 10) (padStart 2 ''0'' (decimal n))"
  by (simp add: padStart_decimal decimal_digits isDigit_def digitValue_zero)

lemma padded_value: "0 \<le> n \<Longrightarrow> digitsValue 10 (padStart 2 ''0'' (decimal n)) = nat n"
  by (simp add: padStart_decimal decimal_value digitsValue_zero_Cons)

lemma padded_length: "2 \<le> length (padStart 2 ''0'' (decimal n))"
proof -
  have "length (decimal n) \<noteq> 0" by (simp add: decimal_nonempty)
  then have "Suc 0 \<le> length (decimal n)" by arith
  then show ?thesis by (simp add: padStart_decimal)
qed

lemma padded_length_two: "n < 100 \<Longrightarrow> length (padStart 2 ''0'' (decimal n)) = 2"
  using decimal_length_two [of n] padded_length [of n] by (simp add: padStart_decimal split: if_splits)

lemma padded_minimal:
  "2 < length (padStart 2 ''0'' (decimal n)) \<Longrightarrow> hd (padStart 2 ''0'' (decimal n)) \<noteq> CHR ''0''"
proof -
  assume long: "2 < length (padStart 2 ''0'' (decimal n))"
  then have "2 < length (decimal n)" by (simp add: padStart_decimal split: if_splits)
  then have "\<not> n < 10" by (simp add: decimal_length [of n] split: if_splits)
  then have "hd (decimal n) \<noteq> CHR ''0''" by (simp add: decimal_hd)
  with \<open>2 < length (decimal n)\<close> show ?thesis by (simp add: padStart_decimal)
qed

lemma formatTime_below_2_53:
  assumes "0 \<le> t" and "t < 2 ^ 53"
  shows "formatTime t =
     padStart 2 ''0'' (decimal (t div 60)) @ CHR '':'' # padStart 2 ''0'' (decimal (t mod 60))"
proof -
  have m: "\<lfloor>round64 (of_int t / 60)\<rfloor> = t div 60" using assms by (rule floor_round64_div60)
  have "remainder t 60 = t mod 60"
    using assms(1) by (cases "t = 0") (simp_all add: remainder_def)
  moreover have "\<not> t div 60 < 0" using assms(1) by (simp add: not_less)
  moreover have "\<not> t mod 60 < 0" by (simp add: not_less)
  moreover have "t div 60 < 2 ^ 53" using assms by (simp add: div_less_iff_less_mult)
  moreover have "t mod 60 < 2 ^ 53"
  proof -
    have "t mod 60 < 60" by simp
    then show ?thesis by simp
  qed
  ultimately show ?thesis
    by (simp add: formatTime_def m String_int_def String_nonneg_def Let_def)
qed

lemma fields_of_display:
  "list_all (isDigit 10) a \<Longrightarrow>
     minutes_field (a @ CHR '':'' # b) = a \<and> seconds_field (a @ CHR '':'' # b) = b"
proof -
  assume "list_all (isDigit 10) a"
  then have "\<forall>c \<in> set a. c \<noteq> CHR '':''" by (auto simp add: list_all_iff isDigit_not_colon)
  then show ?thesis
    by (simp add: minutes_field_def seconds_field_def takeWhile_append2 dropWhile_append2)
qed

section \<open>Evaluating the model\<close>

lemmas model_defs = initial_def step_def commit_def rerun_needed_def points_def
  handleDurationChange_def handleSetDuration_def handleStart_def handlePause_def handleReset_def
  tick_def clear_timer_def clearInterval_def truthy_def effect_def cleanup_def setInterval_def
  num_gt_def num_le_def isNaN_def Number_str_def trim_def StrWhiteSpaceChar_def
  NonDecimalIntegerLiteral_def StrDecimalLiteral_def StrUnsignedDecimalLiteral_def isDigit_def
  digitValue_def digitsValue_def Digits_def scale10_def Running_def Idle_def Let_def

text \<open>
  Whenever the interval fires with at least one second left, the callback does decrement
  by one and floor at zero.
\<close>

lemma tick_from_one_up:
  "num_le (Finite 1) (timeLeft s) \<Longrightarrow> timeLeft (tick s) = decrement_floored (timeLeft s)"
  by (cases "timeLeft s") (auto simp add: tick_def Let_def decrement_floored_def num_le_def)

text \<open>
  In every reachable state Reset makes the component Idle and releases the interval.
\<close>

lemma reset_idle_and_released:
  "Idle (step Reset (run es initial)) \<and> timerRef (step Reset (run es initial)) = None
   \<and> intervals (step Reset (run es initial)) = {}"
proof -
  have c: "consistent (step Reset (run es initial))"
    using consistent_run by (rule consistent_step)
  have i: "Idle (step Reset (run es initial))"
    by (cases "timerRef (run es initial)")
       (simp_all add: step_def handleReset_def commit_flags clear_timer_eq Idle_def)
  then show ?thesis
    using c by (cases "timerRef (step Reset (run es initial))") (simp_all add: consistent_def Idle_def)
qed

section \<open>What the duration field can store\<close>

text \<open>
  \<open>Number\<close> yields an infinity only for a string that spells \<open>Infinity\<close>, which a
  deliverable value cannot.
\<close>

lemma StrUnsignedDecimalLiteral_PosInfinity:
  "StrUnsignedDecimalLiteral s = PosInfinity \<Longrightarrow> s = ''Infinity''"
  by (simp add: StrUnsignedDecimalLiteral_def Let_def split: if_splits option.splits)

lemma StrUnsignedDecimalLiteral_not_NegInfinity:
  "StrUnsignedDecimalLiteral s \<noteq> NegInfinity"
  by (simp add: StrUnsignedDecimalLiteral_def Let_def split: if_splits option.splits)

lemma num_neg_infinite:
  "(num_neg x = PosInfinity) = (x = NegInfinity) \<and> (num_neg x = NegInfinity) = (x = PosInfinity)"
  by (cases x) simp_all

lemma StrDecimalLiteral_infinite:
  "StrDecimalLiteral s = PosInfinity \<or> StrDecimalLiteral s = NegInfinity \<Longrightarrow> CHR ''I'' \<in> set s"
proof (cases s)
  case Nil
  assume "StrDecimalLiteral s = PosInfinity \<or> StrDecimalLiteral s = NegInfinity"
  with Nil show ?thesis by (simp add: StrDecimalLiteral_def)
next
  case (Cons c cs)
  assume "StrDecimalLiteral s = PosInfinity \<or> StrDecimalLiteral s = NegInfinity"
  then have "cs = ''Infinity'' \<or> s = ''Infinity''"
    using Cons StrUnsignedDecimalLiteral_PosInfinity [of cs]
      StrUnsignedDecimalLiteral_PosInfinity [of s]
      StrUnsignedDecimalLiteral_not_NegInfinity [of cs]
      StrUnsignedDecimalLiteral_not_NegInfinity [of s]
    by (auto simp add: StrDecimalLiteral_def num_neg_infinite split: if_splits)
  with Cons show ?thesis by auto
qed

lemma NonDecimalIntegerLiteral_finite:
  "NonDecimalIntegerLiteral s = Some v \<Longrightarrow> v \<noteq> PosInfinity \<and> v \<noteq> NegInfinity"
  by (auto simp add: NonDecimalIntegerLiteral_def Let_def split: list.splits if_splits option.splits)

lemma set_trim: "set (trim v) \<subseteq> set v"
proof
  fix x
  assume "x \<in> set (trim v)"
  then have "x \<in> set (dropWhile StrWhiteSpaceChar (rev (dropWhile StrWhiteSpaceChar v)))"
    by (simp add: trim_def)
  then have "x \<in> set (rev (dropWhile StrWhiteSpaceChar v))" by (rule set_dropWhileD)
  then have "x \<in> set (dropWhile StrWhiteSpaceChar v)" by simp
  then show "x \<in> set v" by (rule set_dropWhileD)
qed

lemma Number_str_infinite:
  assumes "Number_str v = PosInfinity \<or> Number_str v = NegInfinity"
  shows "CHR ''I'' \<in> set v"
proof -
  have "CHR ''I'' \<in> set (trim v)"
  proof (cases "NonDecimalIntegerLiteral (trim v)")
    case None
    with assms have "StrDecimalLiteral (trim v) = PosInfinity \<or> StrDecimalLiteral (trim v) = NegInfinity"
      by (simp add: Number_str_def Let_def split: if_splits)
    then show ?thesis by (rule StrDecimalLiteral_infinite)
  next
    case (Some x)
    then have "x \<noteq> PosInfinity \<and> x \<noteq> NegInfinity" by (rule NonDecimalIntegerLiteral_finite)
    with Some assms show ?thesis by (simp add: Number_str_def Let_def split: if_splits)
  qed
  with set_trim show ?thesis by blast
qed

lemma deliverable_no_I: "deliverable v \<Longrightarrow> CHR ''I'' \<notin> set v"
proof
  assume "deliverable v" and "CHR ''I'' \<in> set v"
  then have "number_field_char CHR ''I''" by (simp add: deliverable_def list_all_iff)
  then show False by (simp add: number_field_char_def isDigit_def digitValue_def)
qed

lemma deliverable_stored:
  "deliverable v \<Longrightarrow> finite_or_empty (duration (handleDurationChange v s))"
proof -
  assume "deliverable v"
  then have "Number_str v \<noteq> PosInfinity \<and> Number_str v \<noteq> NegInfinity"
    using Number_str_infinite [of v] deliverable_no_I [of v] by blast
  then show ?thesis
    by (cases "Number_str v") (simp_all add: handleDurationChange_def Let_def isNaN_def)
qed

lemma finite_or_empty_step:
  "deliverable_event e \<Longrightarrow> finite_or_empty (duration s) \<Longrightarrow> finite_or_empty (duration (step e s))"
proof (cases e)
  case (DurationChange v)
  assume "deliverable_event e"
  with DurationChange show ?thesis by (simp add: step_def commit_duration deliverable_stored)
next
  case SetDuration
  assume "finite_or_empty (duration s)"
  with SetDuration show ?thesis
    by (cases "timerRef s"; cases "duration s")
       (simp_all add: step_def commit_duration handleSetDuration_def clear_timer_eq)
next
  case Start
  assume "finite_or_empty (duration s)"
  with Start show ?thesis by (simp add: step_def commit_duration handleStart_def)
next
  case Pause
  assume "finite_or_empty (duration s)"
  with Pause show ?thesis
    by (cases "timerRef s") (simp_all add: step_def commit_duration handlePause_def clear_timer_eq)
next
  case Reset
  assume "finite_or_empty (duration s)"
  with Reset show ?thesis
    by (cases "timerRef s") (simp_all add: step_def commit_duration handleReset_def clear_timer_eq)
next
  case (Tick h)
  assume "finite_or_empty (duration s)"
  with Tick show ?thesis
    by (simp add: step_def commit_duration tick_def clearInterval_def Let_def split: option.splits)
qed

lemma deliverable_run:
  "list_all deliverable_event es \<Longrightarrow> finite_or_empty (duration (run es initial))"
proof (induction es rule: rev_induct)
  case Nil
  show ?case by (simp add: initial_def)
next
  case (snoc e es)
  then show ?case by (simp add: run_snoc finite_or_empty_step)
qed

text \<open>
  What the guard of \<open>handleSetDuration\<close> does in a reachable state, whatever the stored
  duration.
\<close>

lemma set_duration_guard:
  assumes "s = run es initial"
  shows "case duration s of
           Num d \<Rightarrow>
             if num_gt d (Finite 0)
             then timeLeft (step SetDuration s) = d \<and> Idle (step SetDuration s)
                  \<and> timerRef (step SetDuration s) = None \<and> intervals (step SetDuration s) = {}
                  \<and> duration (step SetDuration s) = Str []
             else step SetDuration s = s
         | Str x \<Rightarrow> step SetDuration s = s"
proof -
  have c: "consistent s" using assms by (simp add: consistent_run)
  have c': "consistent (step SetDuration s)" using c by (rule consistent_step)
  show ?thesis
  proof (cases "duration s")
    case (Str x)
    then show ?thesis using c by (simp add: step_def handleSetDuration_def commit_consistent)
  next
    case (Num d)
    show ?thesis
    proof (cases "num_gt d (Finite 0)")
      case False
      with Num show ?thesis using c by (simp add: step_def handleSetDuration_def commit_consistent)
    next
      case True
      have h: "timeLeft (step SetDuration s) = d \<and> Idle (step SetDuration s)
                  \<and> duration (step SetDuration s) = Str []"
        using Num True
        by (cases "timerRef s")
           (simp_all add: step_def handleSetDuration_def commit_duration commit_timeLeft
              commit_flags Idle_def clear_timer_eq)
      then have "timerRef (step SetDuration s) = None \<and> intervals (step SetDuration s) = {}"
        using c' by (cases "timerRef (step SetDuration s)") (simp_all add: consistent_def Idle_def)
      with h Num True show ?thesis by simp
    qed
  qed
qed

section \<open>The claims\<close>

text \<open>
  C1. Reset is said to set TimeLeft back to the duration last set with SetDuration, so
  that Reset after Pause restores the duration originally set; the comment on the line
  of \<open>handleReset\<close> that writes \<open>timeLeft\<close> says the same. The program does not:
  \<open>handleSetDuration\<close> empties the input field, and \<open>handleReset\<close> reads that field.
  After entering 10, Set, Start and Pause, ten seconds are left; after Reset, none.
\<close>

theorem reset_after_pause_loses_duration:
  "timeLeft (run [DurationChange ''10'', SetDuration, Start, Pause] initial) = Finite 10
   \<and> timeLeft (run [DurationChange ''10'', SetDuration, Start, Pause, Reset] initial) = Finite 0"
  by code_simp

text \<open>
  C2. The claim that the ref holds a handle exactly when the component is Running fails
  once a countdown has run out: the last tick clears the handle and leaves \<open>isActive\<close>
  set. After entering 1, Set, Start and one tick, the component is Running with no
  handle.
\<close>

theorem ticker_iff_running_counterexample:
  "\<not> ((timerRef (run [DurationChange ''1'', SetDuration, Start, Tick 1] initial) \<noteq> None)
       = Running (run [DurationChange ''1'', SetDuration, Start, Tick 1] initial))"
  by code_simp

text \<open>
  C2, amended. In every state reachable from the mounted component by input changes,
  clicks and ticks, the ref holds a handle exactly when the component is Running and
  \<open>timeLeft\<close> is greater than 0.
\<close>

theorem ticker_iff_running_with_time_left:
  "(timerRef (run es initial) \<noteq> None)
     = (Running (run es initial) \<and> num_gt (timeLeft (run es initial)) (Finite 0))"
  using consistent_run [of es]
  by (cases "timerRef (run es initial)") (auto simp add: consistent_def Running_def)

theorem ticker_iff_running_with_time_left_witness:
  "(timerRef (run [DurationChange ''2'', SetDuration, Start, Tick 1] initial) = Some 1)
   \<and> Running (run [DurationChange ''2'', SetDuration, Start, Tick 1] initial)
   \<and> timeLeft (run [DurationChange ''2'', SetDuration, Start, Tick 1] initial) = Finite 1"
  using ticker_iff_running_with_time_left [of "[DurationChange ''2'', SetDuration, Start, Tick 1]"]
  by code_simp

text \<open>
  C3. TimeLeft is said never to be negative in a reachable state. \<open>handleSetDuration\<close>
  refuses a duration that is not greater than 0, but \<open>handleReset\<close> copies the input
  field unchecked: after entering -5 and Reset, \<open>timeLeft\<close> is -5.
\<close>

theorem reset_copies_negative_input:
  "timeLeft (run [DurationChange ''-5'', Reset] initial) = Finite (- 5)
   \<and> num_lt (timeLeft (run [DurationChange ''-5'', Reset] initial)) (Finite 0)"
  by code_simp

text \<open>
  C4. A tick is said to decrement TimeLeft by 1, floored at 0. The callback stops the
  interval when at most one second is left and returns the time minus 1 without a
  floor: with half a second set and started, the interval 1 is live, and its tick
  leaves \<open>timeLeft\<close> at minus one half, where the floored decrement is 0.
\<close>

theorem tick_below_one_goes_negative:
  "1 \<in> intervals (run [DurationChange ''0.5'', SetDuration, Start] initial)
   \<and> timeLeft (run [DurationChange ''0.5'', SetDuration, Start] initial) = Finite (1 / 2)
   \<and> timeLeft (run [DurationChange ''0.5'', SetDuration, Start, Tick 1] initial) = Finite (- (1 / 2))
   \<and> decrement_floored (timeLeft (run [DurationChange ''0.5'', SetDuration, Start] initial)) = Finite 0"
  by code_simp

text \<open>
  C5. In every state reached with values the duration field delivers, the stored
  duration is the empty string or a finite number, and SetDuration takes effect exactly
  when it is a finite number greater than 0: it then sets TimeLeft to that number, makes
  the component Idle, leaves no handle in the ref and no interval live, and empties the
  pending input. In every other case (the empty string left by input that is not a
  number, zero, a negative number) it leaves the whole state unchanged.
\<close>

theorem set_duration_finite_positive:
  assumes "list_all deliverable_event es" and "s = run es initial"
  shows "finite_or_empty (duration s)
         \<and> (case duration s of
               Num d \<Rightarrow>
                 if finite_positive (Num d)
                 then timeLeft (step SetDuration s) = d \<and> Idle (step SetDuration s)
                      \<and> timerRef (step SetDuration s) = None
                      \<and> intervals (step SetDuration s) = {}
                      \<and> duration (step SetDuration s) = Str []
                 else step SetDuration s = s
             | Str x \<Rightarrow> step SetDuration s = s)"
proof -
  have f: "finite_or_empty (duration s)"
    using assms by (simp add: deliverable_run)
  have g: "case duration s of
             Num d \<Rightarrow>
               if num_gt d (Finite 0)
               then timeLeft (step SetDuration s) = d \<and> Idle (step SetDuration s)
                    \<and> timerRef (step SetDuration s) = None \<and> intervals (step SetDuration s) = {}
                    \<and> duration (step SetDuration s) = Str []
               else step SetDuration s = s
           | Str x \<Rightarrow> step SetDuration s = s"
    using assms(2) by (rule set_duration_guard)
  show ?thesis
  proof (cases "duration s")
    case (Str x)
    with f g show ?thesis by simp
  next
    case (Num d)
    with f obtain q where q: "d = Finite q" by (cases d) simp_all
    with Num f g show ?thesis by (simp add: num_gt_def)
  qed
qed

theorem set_duration_finite_positive_witness:
  "list_all deliverable_event [DurationChange ''10'', SetDuration, Start, DurationChange ''7'']
   \<and> duration (run [DurationChange ''10'', SetDuration, Start, DurationChange ''7''] initial) = Num (Finite 7)
   \<and> timeLeft (step SetDuration (run [DurationChange ''10'', SetDuration, Start, DurationChange ''7''] initial)) = Finite 7
   \<and> Idle (step SetDuration (run [DurationChange ''10'', SetDuration, Start, DurationChange ''7''] initial))
   \<and> intervals (run [DurationChange ''10'', SetDuration, Start, DurationChange ''7''] initial) = {1}
   \<and> intervals (step SetDuration (run [DurationChange ''10'', SetDuration, Start, DurationChange ''7''] initial)) = {}"
  using set_duration_finite_positive
    [OF _ refl, of "[DurationChange ''10'', SetDuration, Start, DurationChange ''7'']"]
  by (simp add: model_defs deliverable_def number_field_char_def)

text \<open>
  C6. At most one interval is live at every point of every execution: in each reachable
  state, and in each state the component passes through while it handles one more
  event. Whenever the effect runs again, the cleanup before it leaves no interval live,
  so a new interval is only ever set when the old one has been released.
\<close>

theorem at_most_one_interval:
  assumes "s = run es initial"
  shows "finite (intervals s) \<and> card (intervals s) \<le> 1
         \<and> (\<forall>p \<in> set (points e s). finite (intervals p) \<and> card (intervals p) \<le> 1)
         \<and> (rerun_needed (handler e s) \<longrightarrow> intervals (cleanup (handler e s)) = {})
         \<and> step e s = last (points e s)"
proof -
  have c: "consistent s" using assms by (simp add: consistent_run)
  have now: "finite (intervals s) \<and> card (intervals s) \<le> 1"
    using c by (cases "timerRef s") (simp_all add: consistent_def)
  have h: "finite (intervals (handler e s)) \<and> card (intervals (handler e s)) \<le> 1"
    using c by (rule handler_intervals_finite)
  have cl: "intervals (cleanup (handler e s)) = {}"
    using c by (rule cleanup_releases)
  have ef: "finite (intervals (effect ((cleanup (handler e s))\<lparr>deps := (isActive (handler e s), isPaused (handler e s))\<rparr>)))
            \<and> card (intervals (effect ((cleanup (handler e s))\<lparr>deps := (isActive (handler e s), isPaused (handler e s))\<rparr>))) \<le> 1"
    using cl by (intro effect_card) simp
  have pts: "\<forall>p \<in> set (points e s). finite (intervals p) \<and> card (intervals p) \<le> 1"
    using h cl ef by (simp add: points_def Let_def)
  show ?thesis using now pts cl step_last_points by simp
qed

theorem at_most_one_interval_witness:
  "rerun_needed (handler Start (run [DurationChange ''10'', SetDuration, Start, Pause] initial))
   \<and> length (points Start (run [DurationChange ''10'', SetDuration, Start, Pause] initial)) = 3
   \<and> intervals (step Start (run [DurationChange ''10'', SetDuration, Start, Pause] initial)) = {2}
   \<and> card (intervals (step Start (run [DurationChange ''10'', SetDuration, Start, Pause] initial))) \<le> 1"
  using at_most_one_interval [OF refl, of "[DurationChange ''10'', SetDuration, Start, Pause]" Start]
  by (simp add: model_defs)

text \<open>
  C7. In every reachable state with \<open>isActive\<close> set, Pause sets \<open>isPaused\<close>, clears
  \<open>isActive\<close>, releases the interval (no handle in the ref, no interval live) and
  leaves TimeLeft as it was; in every reachable state without \<open>isActive\<close>, Pause
  changes nothing at all.
\<close>

theorem pause_effect:
  assumes "s = run es initial"
  shows "if isActive s
         then isPaused (step Pause s) \<and> \<not> isActive (step Pause s)
              \<and> timerRef (step Pause s) = None \<and> intervals (step Pause s) = {}
              \<and> timeLeft (step Pause s) = timeLeft s
         else step Pause s = s"
proof -
  have c: "consistent s" using assms by (simp add: consistent_run)
  have c': "consistent (step Pause s)" using c by (rule consistent_step)
  show ?thesis
  proof (cases "isActive s")
    case False
    then show ?thesis using c by (simp add: step_def handlePause_def commit_consistent)
  next
    case True
    have h: "isPaused (step Pause s) \<and> \<not> isActive (step Pause s) \<and> timeLeft (step Pause s) = timeLeft s"
      using True
      by (cases "timerRef s")
         (simp_all add: step_def handlePause_def commit_timeLeft commit_flags clear_timer_eq)
    then have "timerRef (step Pause s) = None \<and> intervals (step Pause s) = {}"
      using c' by (cases "timerRef (step Pause s)") (simp_all add: consistent_def)
    with h True show ?thesis by simp
  qed
qed

theorem pause_effect_witness:
  "isActive (run [DurationChange ''10'', SetDuration, Start, Tick 1] initial)
   \<and> timerRef (run [DurationChange ''10'', SetDuration, Start, Tick 1] initial) = Some 1
   \<and> timerRef (step Pause (run [DurationChange ''10'', SetDuration, Start, Tick 1] initial)) = None
   \<and> timeLeft (step Pause (run [DurationChange ''10'', SetDuration, Start, Tick 1] initial)) = Finite 9"
  using pause_effect [OF refl, of "[DurationChange ''10'', SetDuration, Start, Tick 1]"]
  by code_simp

text \<open>
  C8. The claim that \<open>formatTime\<close> shows \<open>floor(t / 60)\<close> minutes for every
  non-negative integer \<open>t\<close> fails above \<open>2 ^ 53\<close>, where the quotient is rounded
  before the floor is taken and \<open>String\<close> leaves the plain numeral. The binary64
  value 67553994410557496 is shown with 1125899906842625 minutes, one more than
  \<open>floor(t / 60)\<close>; the binary64 value \<open>6e22\<close> is shown as \<open>1e+21:00\<close>, whose minutes
  field is not a string of digits.
\<close>

theorem formatTime_above_2_53_counterexample:
  "(0::int) \<le> 67553994410557496
   \<and> round64 (of_int 67553994410557496) = of_int 67553994410557496
   \<and> formatTime 67553994410557496 = ''1125899906842625:56''
   \<and> digitsValue 10 (minutes_field (formatTime 67553994410557496))
       \<noteq> nat (67553994410557496 div 60)
   \<and> round64 (of_int 60000000000000000000000) = of_int 60000000000000000000000
   \<and> formatTime 60000000000000000000000 = ''1e+21:00''
   \<and> \<not> list_all (isDigit 10) (minutes_field (formatTime 60000000000000000000000))"
proof -
  have r: "round64 (of_int 67553994410557496) = of_int 67553994410557496" by code_simp
  have f: "formatTime 67553994410557496 = ''1125899906842625:56''" by code_simp
  have m: "minutes_field ''1125899906842625:56'' = ''1125899906842625''"
    by (simp add: minutes_field_def)
  have d: "digitsValue 10 ''1125899906842625'' = 1125899906842625"
    by (simp add: digitsValue_def digitValue_def)
  have n: "nat (67553994410557496 div 60) = 1125899906842624" by simp
  have r': "round64 (of_int 60000000000000000000000) = of_int 60000000000000000000000"
    by code_simp
  have f': "formatTime 60000000000000000000000 = ''1e+21:00''" by code_simp
  have m': "minutes_field ''1e+21:00'' = ''1e+21''" by (simp add: minutes_field_def)
  have e: "\<not> isDigit 10 CHR ''e''" by (simp add: isDigit_def digitValue_def)
  show ?thesis using r f m d n r' f' m' e by simp
qed

text \<open>
  C8, amended. For every non-negative integer \<open>t\<close> below \<open>2 ^ 53\<close>, \<open>formatTime t\<close>
  is a minutes field, a colon and a seconds field. The minutes field consists of decimal
  digits that denote \<open>t div 60\<close>, at least two of them, with a leading zero only to
  reach two; the seconds field consists of exactly two decimal digits that denote
  \<open>t mod 60\<close>. In particular 65 is shown as 01:05 and 0 as 00:00.
\<close>

theorem formatTime_MMSS:
  assumes "0 \<le> t" and "t < 2 ^ 53"
  shows "formatTime t = minutes_field (formatTime t) @ '':'' @ seconds_field (formatTime t)
         \<and> list_all (isDigit 10) (minutes_field (formatTime t))
         \<and> digitsValue 10 (minutes_field (formatTime t)) = nat (t div 60)
         \<and> 2 \<le> length (minutes_field (formatTime t))
         \<and> (2 < length (minutes_field (formatTime t)) \<longrightarrow> hd (minutes_field (formatTime t)) \<noteq> CHR ''0'')
         \<and> list_all (isDigit 10) (seconds_field (formatTime t))
         \<and> digitsValue 10 (seconds_field (formatTime t)) = nat (t mod 60)
         \<and> length (seconds_field (formatTime t)) = 2
         \<and> formatTime 65 = ''01:05'' \<and> formatTime 0 = ''00:00''"
proof -
  let ?m = "padStart 2 ''0'' (decimal (t div 60))"
  let ?s = "padStart 2 ''0'' (decimal (t mod 60))"
  have dm: "0 \<le> t div 60" using assms(1) by simp
  have ds: "0 \<le> t mod 60" by simp
  have f: "formatTime t = ?m @ CHR '':'' # ?s" using assms by (rule formatTime_below_2_53)
  have fields: "minutes_field (formatTime t) = ?m \<and> seconds_field (formatTime t) = ?s"
    unfolding f using dm by (intro fields_of_display padded_digits)
  have "t mod 60 < 100"
  proof -
    have "t mod 60 < 60" by simp
    then show ?thesis by simp
  qed
  then have len: "length ?s = 2" by (rule padded_length_two)
  have ex: "formatTime 65 = ''01:05'' \<and> formatTime 0 = ''00:00''" by code_simp
  show ?thesis
    using fields f len ex padded_digits [OF dm] padded_digits [OF ds] padded_value [OF dm]
      padded_value [OF ds] padded_length padded_minimal
    by simp
qed

theorem formatTime_MMSS_witness:
  "(0::int) \<le> 6000 \<and> (6000::int) < 2 ^ 53 \<and> formatTime 6000 = ''100:00''
   \<and> minutes_field (formatTime 6000) = ''100'' \<and> seconds_field (formatTime 6000) = ''00''
   \<and> 2 < length (minutes_field (formatTime 6000))
   \<and> hd (minutes_field (formatTime 6000)) \<noteq> CHR ''0''
   \<and> digitsValue 10 ''100'' = nat (6000 div 60)"
  using formatTime_MMSS [of 6000] by code_simp

text \<open>
  C9. Reset leaves the pending duration input as it is, in every state whatsoever, and
  the value it writes to TimeLeft is the current content of that input: the number
  stored there, or 0 when the input holds the empty string.
\<close>

theorem reset_reads_input_field:
  "duration (step Reset s) = duration s
   \<and> timeLeft (step Reset s) = (case duration s of Num d \<Rightarrow> d | Str x \<Rightarrow> Finite 0)"
  by (cases "timerRef s")
     (simp_all add: step_def handleReset_def commit_duration commit_timeLeft clear_timer_eq)

text \<open>
  C10. \<open>Number\<close> of the empty string is 0, so emptying the input field stores the
  number 0 as pending duration. In the state that results, SetDuration changes nothing
  and Reset sets TimeLeft to 0.
\<close>

theorem empty_input_is_zero:
  "Number_str [] = Finite 0
   \<and> duration (step (DurationChange []) s) = Num (Finite 0)
   \<and> step SetDuration (step (DurationChange []) s) = step (DurationChange []) s
   \<and> timeLeft (step Reset (step (DurationChange []) s)) = Finite 0"
proof -
  have n: "Number_str [] = Finite 0" by (simp add: Number_str_def trim_def)
  have d: "duration (step (DurationChange []) s) = Num (Finite 0)"
    by (simp add: step_def commit_duration handleDurationChange_def n isNaN_def)
  have "handleSetDuration (step (DurationChange []) s) = step (DurationChange []) s"
    by (simp add: handleSetDuration_def d num_gt_def)
  then have st: "step SetDuration (step (DurationChange []) s) = step (DurationChange []) s"
    by (simp add: step_def [of SetDuration] step_def [of "DurationChange []"] commit_idempotent)
  have "timeLeft (step Reset (step (DurationChange []) s)) = Finite 0"
    by (cases "timerRef (step (DurationChange []) s)")
       (simp_all add: step_def [of Reset] handleReset_def commit_timeLeft clear_timer_eq d)
  with n d st show ?thesis by simp
qed

end
